theory Spec2Isabelle
  imports Main
begin

section \<open>Strings as the scripts use them\<close>

text \<open>
  A JavaScript string is modelled as a \<^typ>\<open>string\<close>; each \<^typ>\<open>char\<close> stands for one
  code unit below 256 (the patterns of \<^verbatim>\<open>alias.js\<close> only inspect ASCII characters).
  \<^verbatim>\<open>s.includes(p)\<close> is substring containment.
\<close>

definition startsWith :: "string \<Rightarrow> string \<Rightarrow> bool" where
  "startsWith s p = (take (length p) s = p)"

fun str_includes :: "string \<Rightarrow> string \<Rightarrow> bool" where
  "str_includes [] p = (p = [])"
| "str_includes (c # s) p = (startsWith (c # s) p \<or> str_includes s p)"

definition is_digit :: "char \<Rightarrow> bool" where
  "is_digit c = (c \<in> set ''0123456789'')"

text \<open>\<^verbatim>\<open>\d{n}\<close> at the start of a string.\<close>

definition digits_at :: "nat \<Rightarrow> string \<Rightarrow> bool" where
  "digits_at n s = (n \<le> length s \<and> list_all is_digit (take n s))"

section \<open>Identifier codec (\<^verbatim>\<open>AliasManager\<close> in \<^verbatim>\<open>src/utils/alias.js\<close>)\<close>

text \<open>\<^verbatim>\<open>accountId.replace(/-/g, '')\<close>\<close>

definition normalizeAccountId :: "string \<Rightarrow> string" where
  "normalizeAccountId accountId = filter (\<lambda>c. c \<noteq> CHR ''-'') accountId"

text \<open>\<^verbatim>\<open>s.slice(a, b)\<close> for \<open>a \<le> b\<close>.\<close>

definition slice :: "string \<Rightarrow> nat \<Rightarrow> nat \<Rightarrow> string" where
  "slice s a b = take (b - a) (drop a s)"

text \<open>\<^verbatim>\<open>/^\d{12}$/.test(s)\<close>: a fresh, non-global pattern, so no state is involved.\<close>

definition is_canonical :: "string \<Rightarrow> bool" where
  "is_canonical s = (length s = 12 \<and> list_all is_digit s)"

definition formatAccountId :: "string \<Rightarrow> string" where
  "formatAccountId accountId =
     (if length accountId = 12 \<and> is_canonical accountId
      then slice accountId 0 4 @ ''-'' @ slice accountId 4 8 @ ''-'' @ slice accountId 8 12
      else accountId)"

section \<open>The shared pattern \<^verbatim>\<open>ACCOUNT_ID_PATTERN\<close>\<close>

text \<open>
  \<^verbatim>\<open>/(\d{4}-\d{4}-\d{4}|\d{12})/g\<close>. \<open>match_at s\<close> is the length of the match that starts at
  the first character of \<open>s\<close>: the hyphenated alternative is tried first.
\<close>

definition match_hyphenated :: "string \<Rightarrow> bool" where
  "match_hyphenated s =
     (digits_at 4 s \<and> startsWith (drop 4 s) ''-'' \<and> digits_at 4 (drop 5 s) \<and>
      startsWith (drop 9 s) ''-'' \<and> digits_at 4 (drop 10 s))"

definition match_at :: "string \<Rightarrow> nat option" where
  "match_at s =
     (if match_hyphenated s then Some 14
      else if digits_at 12 s then Some 12
      else None)"

text \<open>
  The pattern is one object with the \<^verbatim>\<open>g\<close> flag, stored in a static field, so its
  \<^verbatim>\<open>lastIndex\<close> is state shared by every caller. \<open>regexp_exec\<close> is the language's
  builtin exec for a global pattern: the scan starts at \<^verbatim>\<open>lastIndex\<close>; a match stores its
  end index, a failure stores 0.
\<close>

fun search_from :: "nat \<Rightarrow> string \<Rightarrow> (nat \<times> nat) option" where
  "search_from i [] = None"
| "search_from i (c # s) =
     (case match_at (c # s) of
        Some l \<Rightarrow> Some (i, l)
      | None \<Rightarrow> search_from (Suc i) s)"

definition regexp_exec :: "string \<Rightarrow> nat \<Rightarrow> (nat \<times> nat) option \<times> nat" where
  "regexp_exec S lastIndex =
     (if lastIndex > length S then (None, 0)
      else case search_from lastIndex (drop lastIndex S) of
             None \<Rightarrow> (None, 0)
           | Some (i, l) \<Rightarrow> (Some (i, l), i + l))"

text \<open>\<^verbatim>\<open>ACCOUNT_ID_PATTERN.test(S)\<close>: the answer and the new \<^verbatim>\<open>lastIndex\<close>.\<close>

definition ACCOUNT_ID_PATTERN_test :: "string \<Rightarrow> nat \<Rightarrow> bool \<times> nat" where
  "ACCOUNT_ID_PATTERN_test S lastIndex =
     (case regexp_exec S lastIndex of (r, lastIndex') \<Rightarrow> (r \<noteq> None, lastIndex'))"

text \<open>Two successive calls of the detector on the same text, as the callers make them.\<close>

definition test_twice :: "string \<Rightarrow> nat \<Rightarrow> bool \<times> bool" where
  "test_twice S lastIndex =
     (case ACCOUNT_ID_PATTERN_test S lastIndex of
        (r1, lastIndex1) \<Rightarrow>
          (case ACCOUNT_ID_PATTERN_test S lastIndex1 of (r2, lastIndex2) \<Rightarrow> (r1, r2)))"

text \<open>
  \<^verbatim>\<open>text.replace(ACCOUNT_ID_PATTERN, callback)\<close>: every match, left to right and
  non-overlapping, is replaced by what the callback returns for it (the single capture group
  is the whole match). The replace resets \<^verbatim>\<open>lastIndex\<close> to 0 and leaves it at 0.
\<close>

function replace_ids :: "(string \<Rightarrow> string) \<Rightarrow> string \<Rightarrow> string" where
  "replace_ids f [] = []"
| "replace_ids f (c # s) =
     (case match_at (c # s) of
        Some l \<Rightarrow> f (take l (c # s)) @ replace_ids f (drop l (c # s))
      | None \<Rightarrow> c # replace_ids f s)"
  by pat_completeness auto
termination
proof (relation "measure (\<lambda>(f, s). length s)")
  show "wf (measure (\<lambda>(f :: string \<Rightarrow> string, s :: string). length s))"
    by simp
next
  fix f :: "string \<Rightarrow> string" and c :: char and s :: string and l :: nat
  assume "match_at (c # s) = Some l"
  then have "0 < l"
    by (auto simp: match_at_def split: if_splits)
  then show "((f, drop l (c # s)), (f, c # s)) \<in> measure (\<lambda>(f, s). length s)"
    by simp
next
  fix f :: "string \<Rightarrow> string" and c :: char and s :: string
  show "((f, s), (f, c # s)) \<in> measure (\<lambda>(f, s). length s)"
    by simp
qed

section \<open>Rewriting a text (\<^verbatim>\<open>applyAliasesToText\<close>)\<close>

text \<open>
  The alias map is a JavaScript object from canonical identifiers to labels: an association
  list whose keys are distinct. \<^verbatim>\<open>aliasMap[k]\<close> is \<^const>\<open>map_of\<close>,
  \<^verbatim>\<open>Object.values(aliasMap)\<close> the second components.
\<close>

type_synonym alias_map = "(string \<times> string) list"

text \<open>The callback of the replace: \<^verbatim>\<open>if (alias)\<close> holds for a defined, non-empty label.\<close>

definition alias_callback :: "alias_map \<Rightarrow> string \<Rightarrow> string" where
  "alias_callback aliasMap accountId =
     (case map_of aliasMap (normalizeAccountId accountId) of
        Some alias \<Rightarrow>
          (if alias \<noteq> [] then accountId @ '' ('' @ alias @ '')'' else accountId)
      | None \<Rightarrow> accountId)"

definition hasAlreadyProcessed :: "alias_map \<Rightarrow> string \<Rightarrow> bool" where
  "hasAlreadyProcessed aliasMap text =
     list_ex (\<lambda>alias. str_includes text (''('' @ alias @ '')'')) (map snd aliasMap)"

text \<open>The result is the new text and the pattern's \<^verbatim>\<open>lastIndex\<close> after the call.\<close>

definition applyAliasesToText :: "string \<Rightarrow> alias_map \<Rightarrow> nat \<Rightarrow> string \<times> nat" where
  "applyAliasesToText text aliasMap lastIndex =
     (if str_includes text ''('' \<and> str_includes text '')'' \<and> hasAlreadyProcessed aliasMap text
      then (text, lastIndex)
      else (replace_ids (alias_callback aliasMap) text, 0))"

section \<open>The document tree\<close>

text \<open>
  A node is a text node or an element with its tag (the local name, in lower case as the
  type selectors \<^verbatim>\<open>code\<close> and \<^verbatim>\<open>pre\<close> compare it), attributes and children.
  \<^verbatim>\<open>element.dataset.aliasApplied\<close> is the attribute \<^verbatim>\<open>data-alias-applied\<close>. Where a function
  looks at ancestors (\<^verbatim>\<open>closest\<close>, \<^verbatim>\<open>parentElement\<close>) the model passes the chain of
  ancestor elements, nearest first.
\<close>

datatype node =
    TextNode (nodeValue: string)
  | Element (tagName: string) (attributes: "(string \<times> string) list") (childNodes: "node list")

datatype error = TypeError | SyntaxError | Error string | ImportFailed error

fun textContent :: "node \<Rightarrow> string" where
  "textContent (TextNode t) = t"
| "textContent (Element tag attrs cs) = concat (map textContent cs)"

fun getAttribute :: "node \<Rightarrow> string \<Rightarrow> string option" where
  "getAttribute (TextNode t) name = None"
| "getAttribute (Element tag attrs cs) name = map_of attrs name"

fun setAttr :: "(string \<times> string) list \<Rightarrow> string \<Rightarrow> string \<Rightarrow> (string \<times> string) list" where
  "setAttr [] name v = [(name, v)]"
| "setAttr ((k, x) # attrs) name v =
     (if k = name then (k, v) # attrs else (k, x) # setAttr attrs name v)"

subsection \<open>Selectors\<close>

text \<open>\<^verbatim>\<open>[name*="v"]\<close>: the attribute is present and its value contains \<open>v\<close>.\<close>

definition attr_contains :: "node \<Rightarrow> string \<Rightarrow> string \<Rightarrow> bool" where
  "attr_contains e name v =
     (case getAttribute e name of Some x \<Rightarrow> str_includes x v | None \<Rightarrow> False)"

text \<open>\<^verbatim>\<open>.cls\<close>: the class attribute, split at ASCII whitespace, has the token.\<close>

definition is_ascii_ws :: "char \<Rightarrow> bool" where
  "is_ascii_ws c = (c \<in> set [CHR 0x09, CHR 0x0A, CHR 0x0C, CHR 0x0D, CHR 0x20])"

fun split_ws :: "string \<Rightarrow> string \<Rightarrow> string list" where
  "split_ws cur [] = (if cur = [] then [] else [cur])"
| "split_ws cur (c # s) =
     (if is_ascii_ws c then (if cur = [] then split_ws [] s else cur # split_ws [] s)
      else split_ws (cur @ [c]) s)"

definition has_class :: "node \<Rightarrow> string \<Rightarrow> bool" where
  "has_class e cls =
     (case getAttribute e ''class'' of Some v \<Rightarrow> cls \<in> set (split_ws [] v) | None \<Rightarrow> False)"

fun has_tag :: "node \<Rightarrow> string \<Rightarrow> bool" where
  "has_tag (TextNode t) name = False"
| "has_tag (Element tag attrs cs) name = (tag = name)"

text \<open>
  \<^verbatim>\<open>element.matches(EXCLUDE_SELECTORS.join(','))\<close>, one disjunct per selector in the order of
  the list. The third selector, \<^verbatim>\<open>[data-*="arn"]\<close>, reads as the attribute named
  \<^verbatim>\<open>data-\<close> with the operator \<^verbatim>\<open>*=\<close>.
\<close>

definition matches_EXCLUDE_SELECTORS :: "node \<Rightarrow> bool" where
  "matches_EXCLUDE_SELECTORS e =
     (attr_contains e ''class'' ''arn'' \<or>
      attr_contains e ''id'' ''arn'' \<or>
      attr_contains e ''data-'' ''arn'' \<or>
      attr_contains e ''class'' ''resource-id'' \<or>
      attr_contains e ''class'' ''resourceId'' \<or>
      has_tag e ''code'' \<or>
      has_tag e ''pre'' \<or>
      has_class e ''code-block'' \<or>
      has_class e ''code-snippet'' \<or>
      has_class e ''template-editor'' \<or>
      has_class e ''json-viewer'' \<or>
      has_class e ''yaml-viewer'')"

text \<open>\<^verbatim>\<open>isExcludedElement\<close>; it is only ever called on elements.\<close>

definition isExcludedElement :: "node list \<Rightarrow> node \<Rightarrow> bool" where
  "isExcludedElement ancestors element =
     (if matches_EXCLUDE_SELECTORS element then True
      else if list_ex matches_EXCLUDE_SELECTORS (element # ancestors) then True
      else if str_includes (textContent element) ''arn:aws:'' \<or>
              str_includes (textContent element) ''arn:aws-cn:'' then True
      else False)"

text \<open>\<^verbatim>\<open>element.querySelector('.aws-custom-alias')\<close>: some descendant has the class.\<close>

fun querySelector_alias :: "node \<Rightarrow> bool" where
  "querySelector_alias (TextNode t) = False"
| "querySelector_alias (Element tag attrs cs) =
     list_ex (\<lambda>c. has_class c ''aws-custom-alias'' \<or> querySelector_alias c) cs"

definition aliasApplied :: "node \<Rightarrow> bool" where
  "aliasApplied e = (getAttribute e ''data-alias-applied'' = Some ''true'')"

fun set_aliasApplied :: "node \<Rightarrow> node" where
  "set_aliasApplied (TextNode t) = TextNode t"
| "set_aliasApplied (Element tag attrs cs) =
     Element tag (setAttr attrs ''data-alias-applied'' ''true'') cs"

section \<open>Annotating an element (\<^verbatim>\<open>applyAliasToElement\<close>)\<close>

text \<open>\<^verbatim>\<open>!s.trim()\<close>: the text is empty or white space only.\<close>

definition is_js_ws :: "char \<Rightarrow> bool" where
  "is_js_ws c =
     (c \<in> set [CHR 0x09, CHR 0x0A, CHR 0x0B, CHR 0x0C, CHR 0x0D, CHR 0x20, CHR 0xA0])"

definition blank :: "string \<Rightarrow> bool" where
  "blank s = list_all is_js_ws s"

text \<open>
  The tree walker's filter for a text node with the given parent: the shared pattern is
  tested, and its \<^verbatim>\<open>lastIndex\<close> moved, only when the first two checks let the node through.
\<close>

definition acceptNode :: "node list \<Rightarrow> node \<Rightarrow> string \<Rightarrow> nat \<Rightarrow> bool \<times> nat" where
  "acceptNode ancestors parent v lastIndex =
     (if blank v then (False, lastIndex)
      else if isExcludedElement ancestors parent then (False, lastIndex)
      else ACCOUNT_ID_PATTERN_test v lastIndex)"

text \<open>
  The loop over \<^verbatim>\<open>walker.nextNode()\<close>: every text node below the element, in document
  order, with the filter's verdict for it.
\<close>

fun walk_node :: "node list \<Rightarrow> node \<Rightarrow> node \<Rightarrow> nat \<Rightarrow> bool list \<times> nat"
and walk_list :: "node list \<Rightarrow> node \<Rightarrow> node list \<Rightarrow> nat \<Rightarrow> bool list \<times> nat" where
  "walk_node ancestors parent (TextNode v) lastIndex =
     (case acceptNode ancestors parent v lastIndex of (a, lastIndex') \<Rightarrow> ([a], lastIndex'))"
| "walk_node ancestors parent (Element tag attrs cs) lastIndex =
     walk_list (parent # ancestors) (Element tag attrs cs) cs lastIndex"
| "walk_list ancestors parent [] lastIndex = ([], lastIndex)"
| "walk_list ancestors parent (c # cs) lastIndex =
     (case walk_node ancestors parent c lastIndex of
        (fs, lastIndex') \<Rightarrow>
          (case walk_list ancestors parent cs lastIndex' of
             (gs, lastIndex'') \<Rightarrow> (fs @ gs, lastIndex'')))"

text \<open>
  \<^verbatim>\<open>newText.replace(/(\d{4}-\d{4}-\d{4}|\d{12}) \(([^)]+)\)/g, '$1 <span ...>($2)</span>')\<close>.
  \<open>label_match_at s\<close> gives the lengths of the two groups of a match at the start of \<open>s\<close>.
\<close>

definition label_match_at :: "string \<Rightarrow> (nat \<times> nat) option" where
  "label_match_at s =
     (case match_at s of
        None \<Rightarrow> None
      | Some l \<Rightarrow>
          (if startsWith (drop l s) '' (''
           then (let body = takeWhile (\<lambda>c. c \<noteq> CHR '')'') (drop (l + 2) s)
                 in if body \<noteq> [] \<and> length body < length (drop (l + 2) s)
                    then Some (l, length body) else None)
           else None))"

definition SPAN_OPEN :: string where
  \<open>SPAN_OPEN = ''<span class="aws-custom-alias">''\<close>

definition SPAN_CLOSE :: string where
  "SPAN_CLOSE = ''</span>''"

function wrap_labels :: "string \<Rightarrow> string" where
  "wrap_labels [] = []"
| "wrap_labels (c # s) =
     (case label_match_at (c # s) of
        Some (l, k) \<Rightarrow>
          take l (c # s) @ '' '' @ SPAN_OPEN @ ''('' @ take k (drop (l + 2) (c # s)) @ '')''
            @ SPAN_CLOSE @ wrap_labels (drop (l + k + 3) (c # s))
      | None \<Rightarrow> c # wrap_labels s)"
  by pat_completeness auto
termination
  by (relation "measure length") auto

text \<open>
  \<^verbatim>\<open>tempDiv.innerHTML = markup\<close>. For markup made of plain characters and of
  \<^verbatim>\<open><span class="aws-custom-alias">plain characters</span>\<close> the parse is written out; for
  any other markup it is whatever the browser's parser \<open>html\<close> makes of it. A plain character
  is one the parser copies into a text node as it is. The opening tag has 31 characters, the
  closing tag 7.
\<close>

definition html_plain :: "char \<Rightarrow> bool" where
  "html_plain c = (c \<notin> set [CHR ''<'', CHR ''&'', CHR 0x0D, CHR 0x00])"

definition text_nodes :: "string \<Rightarrow> node list" where
  "text_nodes t = (if t = [] then [] else [TextNode t])"

function parse_simple :: "string \<Rightarrow> node list option" where
  "parse_simple [] = Some []"
| "parse_simple (c # s) =
     (if dropWhile html_plain (c # s) = [] then Some [TextNode (c # s)]
      else if startsWith (dropWhile html_plain (c # s)) SPAN_OPEN \<and>
              startsWith (dropWhile html_plain (drop 31 (dropWhile html_plain (c # s)))) SPAN_CLOSE
      then (case parse_simple
                   (drop 7 (dropWhile html_plain (drop 31 (dropWhile html_plain (c # s))))) of
              Some ns \<Rightarrow>
                Some (text_nodes (takeWhile html_plain (c # s)) @
                      [Element ''span'' [(''class'', ''aws-custom-alias'')]
                         (text_nodes
                            (takeWhile html_plain (drop 31 (dropWhile html_plain (c # s)))))] @
                      ns)
            | None \<Rightarrow> None)
      else None)"
  by pat_completeness auto
termination
proof (relation "measure length")
  show "wf (measure (length :: string \<Rightarrow> nat))"
    by simp
next
  fix c :: char and s :: string
  let ?r = "dropWhile html_plain (c # s)"
  let ?r2 = "dropWhile html_plain (drop 31 ?r)"
  assume "?r \<noteq> []"
  have a: "length ?r \<le> length (c # s)"
    by (rule length_dropWhile_le)
  have b: "length ?r2 \<le> length (drop 31 ?r)"
    by (rule length_dropWhile_le)
  have "length (drop 7 ?r2) \<le> length ?r2"
    by simp
  also have "\<dots> \<le> length ?r - 31"
    using b by simp
  also have "\<dots> < length (c # s)"
    using a by simp
  finally show "(drop 7 ?r2, c # s) \<in> measure length"
    by simp
qed

definition innerHTML :: "(string \<Rightarrow> node list) \<Rightarrow> string \<Rightarrow> node list" where
  "innerHTML html markup =
     (case parse_simple markup of Some ns \<Rightarrow> ns | None \<Rightarrow> html markup)"

text \<open>
  The body of \<^verbatim>\<open>textNodes.forEach\<close> for one accepted text node: the nodes that take its
  place, and the pattern's \<^verbatim>\<open>lastIndex\<close> afterwards.
\<close>

definition replaceTextNode ::
  "(string \<Rightarrow> node list) \<Rightarrow> alias_map \<Rightarrow> string \<Rightarrow> nat \<Rightarrow> node list \<times> nat" where
  "replaceTextNode html aliasMap originalText lastIndex =
     (case applyAliasesToText originalText aliasMap lastIndex of
        (newText, lastIndex') \<Rightarrow>
          (if originalText \<noteq> newText then (innerHTML html (wrap_labels newText), lastIndex')
           else ([TextNode originalText], lastIndex')))"

text \<open>
  The second pass over the same text nodes, in the same order, consuming the verdicts of the
  first: an accepted text node is replaced, everything else stays.
\<close>

fun update_node ::
  "(string \<Rightarrow> node list) \<Rightarrow> alias_map \<Rightarrow> bool list \<Rightarrow> node \<Rightarrow> nat \<Rightarrow> node list \<times> bool list \<times> nat"
and update_list ::
  "(string \<Rightarrow> node list) \<Rightarrow> alias_map \<Rightarrow> bool list \<Rightarrow> node list \<Rightarrow> nat \<Rightarrow> node list \<times> bool list \<times> nat"
where
  "update_node html aliasMap fs (TextNode v) lastIndex =
     (case fs of
        [] \<Rightarrow> ([TextNode v], [], lastIndex)
      | a # fs' \<Rightarrow>
          (if a then (case replaceTextNode html aliasMap v lastIndex of
                        (ns, lastIndex') \<Rightarrow> (ns, fs', lastIndex'))
           else ([TextNode v], fs', lastIndex)))"
| "update_node html aliasMap fs (Element tag attrs cs) lastIndex =
     (case update_list html aliasMap fs cs lastIndex of
        (cs', fs', lastIndex') \<Rightarrow> ([Element tag attrs cs'], fs', lastIndex'))"
| "update_list html aliasMap fs [] lastIndex = ([], fs, lastIndex)"
| "update_list html aliasMap fs (c # cs) lastIndex =
     (case update_node html aliasMap fs c lastIndex of
        (ns, fs', lastIndex') \<Rightarrow>
          (case update_list html aliasMap fs' cs lastIndex' of
             (ns', fs'', lastIndex'') \<Rightarrow> (ns @ ns', fs'', lastIndex'')))"

text \<open>
  \<^verbatim>\<open>applyAliasToElement(element, aliasMap)\<close> with the pattern's \<^verbatim>\<open>lastIndex\<close> before the call;
  the result is the element and the \<^verbatim>\<open>lastIndex\<close> after it. A text node has no
  \<^verbatim>\<open>closest\<close>, so the call raises for it.
\<close>

fun applyAliasToElement ::
  "(string \<Rightarrow> node list) \<Rightarrow> node list \<Rightarrow> node \<Rightarrow> alias_map \<Rightarrow> nat \<Rightarrow> error + node \<times> nat" where
  "applyAliasToElement html ancestors (TextNode v) aliasMap lastIndex = Inl TypeError"
| "applyAliasToElement html ancestors (Element tag attrs cs) aliasMap lastIndex =
     (if isExcludedElement ancestors (Element tag attrs cs)
      then Inr (Element tag attrs cs, lastIndex)
      else if aliasApplied (Element tag attrs cs)
      then Inr (Element tag attrs cs, lastIndex)
      else if querySelector_alias (Element tag attrs cs)
      then Inr (set_aliasApplied (Element tag attrs cs), lastIndex)
      else (case walk_list ancestors (Element tag attrs cs) cs lastIndex of
              (textNodes, lastIndex1) \<Rightarrow>
                (case update_list html aliasMap textNodes cs lastIndex1 of
                   (cs', rest, lastIndex2) \<Rightarrow>
                     Inr (set_aliasApplied (Element tag attrs cs'), lastIndex2))))"

text \<open>
  One element of the passes in \<^verbatim>\<open>applyAliasesToPage\<close> and
  \<^verbatim>\<open>applyAliasesToNavigation\<close>: an unmarked element whose text passes the shared pattern's
  test is handed to \<^verbatim>\<open>applyAliasToElement\<close>.
\<close>

definition pass_element ::
  "(string \<Rightarrow> node list) \<Rightarrow> node list \<Rightarrow> node \<Rightarrow> alias_map \<Rightarrow> nat \<Rightarrow> error + node \<times> nat" where
  "pass_element html ancestors element aliasMap lastIndex =
     (if \<not> aliasApplied element
      then (case ACCOUNT_ID_PATTERN_test (textContent element) lastIndex of
              (found, lastIndex') \<Rightarrow>
                (if found then applyAliasToElement html ancestors element aliasMap lastIndex'
                 else Inr (element, lastIndex')))
      else Inr (element, lastIndex))"

section \<open>Clearing (\<^verbatim>\<open>clearAliasesFromElement\<close>)\<close>

text \<open>
  \<^verbatim>\<open>text.replace(/ \([^)]+\)$/, '')\<close>: the leftmost position where a blank, an opening
  parenthesis, one or more characters other than a closing parenthesis, and a closing
  parenthesis reach the end of the text.
\<close>

definition tail_label_at :: "string \<Rightarrow> bool" where
  "tail_label_at s =
     (startsWith s '' ('' \<and>
      takeWhile (\<lambda>c. c \<noteq> CHR '')'') (drop 2 s) \<noteq> [] \<and>
      dropWhile (\<lambda>c. c \<noteq> CHR '')'') (drop 2 s) = '')'')"

fun strip_label :: "string \<Rightarrow> string" where
  "strip_label [] = []"
| "strip_label (c # s) = (if tail_label_at (c # s) then [] else c # strip_label s)"

text \<open>
  The loop over \<^verbatim>\<open>querySelectorAll('.aws-custom-alias')\<close>, in document order: a text node
  right before the span has the pattern above stripped, and the span is removed. The children
  already handled are kept in reverse, so that the head is the previous sibling.
\<close>

fun removeSpans_node :: "node \<Rightarrow> node"
and removeSpans_list :: "node list \<Rightarrow> node list \<Rightarrow> node list" where
  "removeSpans_node (TextNode v) = TextNode v"
| "removeSpans_node (Element tag attrs cs) = Element tag attrs (removeSpans_list [] cs)"
| "removeSpans_list done [] = rev done"
| "removeSpans_list done (c # cs) =
     (if has_class c ''aws-custom-alias''
      then (case done of
              TextNode v # before \<Rightarrow> removeSpans_list (TextNode (strip_label v) # before) cs
            | _ \<Rightarrow> removeSpans_list done cs)
      else removeSpans_list (removeSpans_node c # done) cs)"

text \<open>\<^verbatim>\<open>delete el.dataset.aliasApplied\<close> for the elements \<^verbatim>\<open>[data-alias-applied="true"]\<close>.\<close>

fun removeMarks :: "node \<Rightarrow> node" where
  "removeMarks (TextNode v) = TextNode v"
| "removeMarks (Element tag attrs cs) =
     Element tag
       (if map_of attrs ''data-alias-applied'' = Some ''true''
        then filter (\<lambda>(k, x). k \<noteq> ''data-alias-applied'') attrs else attrs)
       (map removeMarks cs)"

text \<open>Both queries run on the descendants of the element, not on the element itself.\<close>

fun clearAliasesFromElement :: "node \<Rightarrow> error + node" where
  "clearAliasesFromElement (TextNode v) = Inl TypeError"
| "clearAliasesFromElement (Element tag attrs cs) =
     Inr (Element tag attrs (map removeMarks (removeSpans_list [] cs)))"

text \<open>Annotating and then clearing, as the controller does on a change of the mapping.\<close>

definition annotate_then_clear ::
  "(string \<Rightarrow> node list) \<Rightarrow> node list \<Rightarrow> node \<Rightarrow> alias_map \<Rightarrow> nat \<Rightarrow> error + node" where
  "annotate_then_clear html ancestors element aliasMap lastIndex =
     (case applyAliasToElement html ancestors element aliasMap lastIndex of
        Inl e \<Rightarrow> Inl e
      | Inr (element', lastIndex') \<Rightarrow> clearAliasesFromElement element')"

section \<open>The label store (\<^verbatim>\<open>StorageManager\<close> and the background message handlers)\<close>

text \<open>
  What \<^verbatim>\<open>chrome.storage.local\<close> holds under the key \<^verbatim>\<open>aws_account_aliases\<close> is a JSON value,
  or nothing. The list of a \<open>JObject\<close> is in the order in which the engine enumerates the
  properties. Of a number only its type and its truthiness matter here.
\<close>

datatype json =
    JNull
  | JBool bool
  | JNumber int
  | JString string
  | JArray "json list"
  | JObject "(string \<times> json) list"

type_synonym storage = "json option"

text \<open>
  A serialized text is represented by what \<^verbatim>\<open>JSON.parse\<close> makes of it: \<open>Doc v\<close> is a text that
  parses to \<open>v\<close> (so \<^verbatim>\<open>JSON.stringify(v, null, 2)\<close> is \<open>Doc v\<close>), and \<open>NotJSON t\<close> is a text
  \<open>t\<close> on which \<^verbatim>\<open>JSON.parse\<close> raises.
\<close>

datatype serialized = Doc json | NotJSON string

text \<open>\<^verbatim>\<open>typeof v === 'object'\<close>, which holds for \<^verbatim>\<open>null\<close> and for arrays too.\<close>

fun typeof_object :: "json \<Rightarrow> bool" where
  "typeof_object JNull = True"
| "typeof_object (JArray xs) = True"
| "typeof_object (JObject kvs) = True"
| "typeof_object v = False"

fun truthy :: "json \<Rightarrow> bool" where
  "truthy JNull = False"
| "truthy (JBool b) = b"
| "truthy (JNumber n) = (n \<noteq> 0)"
| "truthy (JString s) = (s \<noteq> [])"
| "truthy v = True"

text \<open>\<^verbatim>\<open>result[STORAGE_KEY] || {}\<close>\<close>

definition getAllAliases :: "storage \<Rightarrow> json" where
  "getAllAliases st =
     (case st of Some v \<Rightarrow> (if truthy v then v else JObject []) | None \<Rightarrow> JObject [])"

text \<open>\<^verbatim>\<open>StorageManager.exportAliases\<close>: \<^verbatim>\<open>JSON.stringify(aliases, null, 2)\<close>.\<close>

definition exportAliases :: "storage \<Rightarrow> serialized" where
  "exportAliases st = Doc (getAllAliases st)"

text \<open>
  \<^verbatim>\<open>handleExportAliases\<close>: the response's data; \<open>now\<close> is \<^verbatim>\<open>new Date().toISOString()\<close>.
\<close>

definition handleExportAliases :: "string \<Rightarrow> storage \<Rightarrow> error + serialized" where
  "handleExportAliases now st =
     Inr (Doc (JObject [(''version'', JString ''1.0.0''),
                        (''exportedAt'', JString now),
                        (''aliases'', getAllAliases st)]))"

text \<open>The keys and entries of an object; those of an array are its indices in decimal.\<close>

definition digit_char :: "nat \<Rightarrow> char" where
  "digit_char n = ''0123456789'' ! (n mod 10)"

fun decimal :: "nat \<Rightarrow> string" where
  "decimal n = (if n < 10 then [digit_char n] else decimal (n div 10) @ [digit_char n])"

declare decimal.simps [simp del]

fun entries :: "json \<Rightarrow> (string \<times> json) list" where
  "entries (JObject kvs) = kvs"
| "entries (JArray xs) = zip (map decimal [0..<length xs]) xs"
| "entries v = []"

text \<open>
  \<^verbatim>\<open>StorageManager.importAliases\<close>: the loop \<^verbatim>\<open>for (const accountId in aliases)\<close> raises at the
  first key that is no canonical identifier, and the \<^verbatim>\<open>catch\<close> wraps whatever was raised.
  \<open>import_checked\<close> is the body of the \<^verbatim>\<open>try\<close> up to the write; the result of the import is
  the error raised, if any, and the storage afterwards.
\<close>

definition import_checked :: "serialized \<Rightarrow> error + json" where
  "import_checked jsonData =
     (case jsonData of
        NotJSON t \<Rightarrow> Inl SyntaxError
      | Doc aliases \<Rightarrow>
          (if typeof_object aliases \<and> aliases \<noteq> JNull
           then (case find (\<lambda>accountId. \<not> is_canonical accountId)
                           (map fst (entries aliases)) of
                   Some accountId \<Rightarrow> Inl (Error (''Invalid account ID: '' @ accountId))
                 | None \<Rightarrow> Inr aliases)
           else Inl (Error ''Invalid alias data format'')))"

definition importAliases :: "serialized \<Rightarrow> storage \<Rightarrow> error option \<times> storage" where
  "importAliases jsonData st =
     (case import_checked jsonData of
        Inl e \<Rightarrow> (Some (ImportFailed e), st)
      | Inr aliases \<Rightarrow> (None, Some aliases))"

text \<open>\<^verbatim>\<open>handleImportAliases\<close>: which object holds the aliases.\<close>

fun property :: "json \<Rightarrow> string \<Rightarrow> json option" where
  "property (JObject kvs) name = map_of kvs name"
| "property v name = None"

definition legacy_aliases :: "json \<Rightarrow> error + json" where
  "legacy_aliases importData =
     (if typeof_object importData then Inr importData else Inl (Error ''Invalid data format''))"

definition select_aliases :: "json \<Rightarrow> error + json" where
  "select_aliases importData =
     (if importData = JNull then Inl TypeError
      else (case property importData ''aliases'' of
              Some v \<Rightarrow> (if truthy v \<and> typeof_object v then Inr v
                          else legacy_aliases importData)
            | None \<Rightarrow> legacy_aliases importData))"

text \<open>\<^verbatim>\<open>typeof alias !== 'string' || !alias.trim()\<close> is the negation of:\<close>

fun valid_alias :: "json \<Rightarrow> bool" where
  "valid_alias (JString s) = (\<not> blank s)"
| "valid_alias v = False"

fun validate :: "(string \<times> json) list \<Rightarrow> error option" where
  "validate [] = None"
| "validate ((accountId, alias) # rest) =
     (if \<not> is_canonical accountId then Some (Error (''Invalid account ID: '' @ accountId))
      else if \<not> valid_alias alias then Some (Error (''Invalid alias for account '' @ accountId))
      else validate rest)"

text \<open>The response (the error, or the aliases sent back) and the storage afterwards.\<close>

definition handleImportAliases :: "serialized \<Rightarrow> storage \<Rightarrow> (error + json) \<times> storage" where
  "handleImportAliases data st =
     (case (if data = NotJSON [] then Inl (Error ''Import data is required'')
            else (case data of
                    NotJSON t \<Rightarrow> Inl (Error ''Invalid JSON format'')
                  | Doc importData \<Rightarrow>
                      (case select_aliases importData of
                         Inl e \<Rightarrow> Inl e
                       | Inr aliases \<Rightarrow>
                           (case validate (entries aliases) of
                              Some e \<Rightarrow> Inl e
                            | None \<Rightarrow> Inr aliases)))) of
        Inl e \<Rightarrow> (Inl e, st)
      | Inr aliases \<Rightarrow> (Inr aliases, Some aliases))"

text \<open>
  The export shape in the specification's words: a document with the members
  \<^verbatim>\<open>version\<close>, \<^verbatim>\<open>exportedAt\<close> and \<^verbatim>\<open>aliases\<close>, the last one being the mapping.
\<close>

fun spec_export_shape :: "json \<Rightarrow> serialized \<Rightarrow> bool" where
  "spec_export_shape mapping (Doc (JObject kvs)) =
     (map fst kvs = [''version'', ''exportedAt'', ''aliases''] \<and>
      map_of kvs ''aliases'' = Some mapping)"
| "spec_export_shape mapping text = False"

section \<open>Codec round trip\<close>

lemma normalize_digits: "list_all is_digit s \<Longrightarrow> normalizeAccountId s = s"
  by (induction s) (auto simp: normalizeAccountId_def is_digit_def)

lemma format_canonical:
  assumes "is_canonical accountId"
  shows "formatAccountId accountId =
         take 4 accountId @ ''-'' @ take 4 (drop 4 accountId) @ ''-'' @ drop 8 accountId"
  using assms by (simp add: formatAccountId_def is_canonical_def slice_def)

text \<open>
  Claim C6. For every canonical identifier (twelve digits and nothing else),
  \<open>formatAccountId\<close> yields the 4-4-4 hyphen-grouped form and \<open>normalizeAccountId\<close> of
  that form is the identifier again.
\<close>

theorem codec_round_trip:
  assumes "is_canonical accountId"
  shows "normalizeAccountId (formatAccountId accountId) = accountId \<and>
         formatAccountId accountId =
           slice accountId 0 4 @ ''-'' @ slice accountId 4 8 @ ''-'' @ slice accountId 8 12"
proof -
  from assms have d: "list_all is_digit accountId" and len: "length accountId = 12"
    by (simp_all add: is_canonical_def)
  have parts: "take 4 accountId @ take 4 (drop 4 accountId) @ drop 8 accountId = accountId"
    by (metis append_take_drop_id drop_drop numeral_Bit0)
  have "normalizeAccountId (formatAccountId accountId) =
        normalizeAccountId (take 4 accountId) @ normalizeAccountId (take 4 (drop 4 accountId))
          @ normalizeAccountId (drop 8 accountId)"
    by (simp add: format_canonical [OF assms] normalizeAccountId_def)
  also have "\<dots> = normalizeAccountId (take 4 accountId @ take 4 (drop 4 accountId) @ drop 8 accountId)"
    by (simp add: normalizeAccountId_def)
  also have "\<dots> = accountId"
    using d by (simp add: parts normalize_digits)
  finally have rt: "normalizeAccountId (formatAccountId accountId) = accountId" .
  have "formatAccountId accountId =
        slice accountId 0 4 @ ''-'' @ slice accountId 4 8 @ ''-'' @ slice accountId 8 12"
    using assms by (simp add: formatAccountId_def is_canonical_def)
  with rt show ?thesis by simp
qed

theorem codec_round_trip_witness:
  "is_canonical ''123456789012'' \<and>
   normalizeAccountId (formatAccountId ''123456789012'') = ''123456789012'' \<and>
   formatAccountId ''123456789012'' = ''1234-5678-9012''"
proof -
  have c: "is_canonical ''123456789012''"
    by (simp add: is_canonical_def is_digit_def)
  show ?thesis
    using c codec_round_trip [OF c] by (simp add: slice_def normalizeAccountId_def)
qed

section \<open>Substrings\<close>

lemma startsWith_iff: "startsWith s p \<longleftrightarrow> (\<exists>v. s = p @ v)"
proof
  assume "startsWith s p"
  then have "s = p @ drop (length p) s"
    unfolding startsWith_def by (metis append_take_drop_id)
  then show "\<exists>v. s = p @ v" ..
next
  assume "\<exists>v. s = p @ v"
  then show "startsWith s p" by (auto simp: startsWith_def)
qed

lemma str_includes_iff: "str_includes s p \<longleftrightarrow> (\<exists>u v. s = u @ p @ v)"
proof (induction s)
  case Nil
  then show ?case by auto
next
  case (Cons c s)
  show ?case
  proof
    assume "str_includes (c # s) p"
    then consider "startsWith (c # s) p" | "str_includes s p" by auto
    then show "\<exists>u v. c # s = u @ p @ v"
    proof cases
      case 1
      then obtain v where "c # s = p @ v" using startsWith_iff by blast
      then have "c # s = [] @ p @ v" by simp
      then show ?thesis by blast
    next
      case 2
      then obtain u v where "s = u @ p @ v" using Cons.IH by blast
      then have "c # s = (c # u) @ p @ v" by simp
      then show ?thesis by blast
    qed
  next
    assume "\<exists>u v. c # s = u @ p @ v"
    then obtain u v where uv: "c # s = u @ p @ v" by blast
    show "str_includes (c # s) p"
    proof (cases u)
      case Nil
      with uv have "startsWith (c # s) p" using startsWith_iff by auto
      then show ?thesis by simp
    next
      case (Cons d u')
      with uv have "s = u' @ p @ v" by simp
      then have "str_includes s p" using Cons.IH by blast
      then show ?thesis by simp
    qed
  qed
qed

lemma includes_parens:
  assumes "str_includes t (''('' @ a @ '')'')"
  shows "str_includes t ''('' \<and> str_includes t '')''"
proof -
  from assms obtain u v where "t = u @ (''('' @ a @ '')'') @ v"
    using str_includes_iff by blast
  then have "t = u @ ''('' @ (a @ '')'' @ v)" and "t = (u @ ''('' @ a) @ '')'' @ v"
    by simp_all
  then show ?thesis using str_includes_iff by blast
qed

section \<open>Rewriting a text twice\<close>

lemma alias_callback_cases:
  "alias_callback m x = x \<or> (\<exists>a \<in> set (map snd m). alias_callback m x = x @ '' ('' @ a @ '')'')"
proof (cases "map_of m (normalizeAccountId x)")
  case None
  then show ?thesis by (simp add: alias_callback_def)
next
  case (Some a)
  then have "(normalizeAccountId x, a) \<in> set m" by (rule map_of_SomeD)
  then have "a \<in> set (map snd m)" by force
  with Some show ?thesis by (auto simp: alias_callback_def)
qed

lemma replace_ids_changed:
  "replace_ids (alias_callback m) t \<noteq> t \<Longrightarrow>
   \<exists>a \<in> set (map snd m). str_includes (replace_ids (alias_callback m) t) (''('' @ a @ '')'')"
proof (induction t rule: length_induct)
  case (1 t)
  show ?case
  proof (cases t)
    case Nil
    with "1.prems" show ?thesis by simp
  next
    case (Cons c s)
    note IH = "1.IH" [rule_format]
    have prems: "replace_ids (alias_callback m) (c # s) \<noteq> c # s"
      using "1.prems" Cons by simp
    have "\<exists>a \<in> set (map snd m).
            str_includes (replace_ids (alias_callback m) (c # s)) (''('' @ a @ '')'')"
  proof (cases "match_at (c # s)")
    case None
    with prems have "replace_ids (alias_callback m) s \<noteq> s" by simp
    moreover have "length s < length t" using Cons by simp
    ultimately obtain a where a: "a \<in> set (map snd m)"
      and "str_includes (replace_ids (alias_callback m) s) (''('' @ a @ '')'')"
      using IH [of s] by blast
    then obtain u v where "replace_ids (alias_callback m) s = u @ (''('' @ a @ '')'') @ v"
      using str_includes_iff by blast
    then have "replace_ids (alias_callback m) (c # s) = (c # u) @ (''('' @ a @ '')'') @ v"
      using None by simp
    then have "str_includes (replace_ids (alias_callback m) (c # s)) (''('' @ a @ '')'')"
      using str_includes_iff by blast
    with a show ?thesis by blast
  next
    case (Some l)
    let ?x = "take l (c # s)"
    let ?rest = "replace_ids (alias_callback m) (drop l (c # s))"
    have res: "replace_ids (alias_callback m) (c # s) = alias_callback m ?x @ ?rest"
      using Some by simp
    have lpos: "0 < l"
      using Some by (auto simp: match_at_def split: if_splits)
    from alias_callback_cases [of m ?x] show ?thesis
    proof
      assume same: "alias_callback m ?x = ?x"
      have "?rest \<noteq> drop l (c # s)"
      proof
        assume "?rest = drop l (c # s)"
        then have "replace_ids (alias_callback m) (c # s) = ?x @ drop l (c # s)"
          using res same by simp
        then show False using prems by simp
      qed
      moreover have "length (drop l (c # s)) < length t"
        using lpos Cons by simp
      ultimately obtain a where a: "a \<in> set (map snd m)"
        and "str_includes ?rest (''('' @ a @ '')'')" using IH [of "drop l (c # s)"] by blast
      then obtain u v where "?rest = u @ (''('' @ a @ '')'') @ v"
        using str_includes_iff by blast
      then have "replace_ids (alias_callback m) (c # s) = (?x @ u) @ (''('' @ a @ '')'') @ v"
        using res same by simp
      then have "str_includes (replace_ids (alias_callback m) (c # s)) (''('' @ a @ '')'')"
        using str_includes_iff by blast
      with a show ?thesis by blast
    next
      assume "\<exists>a \<in> set (map snd m). alias_callback m ?x = ?x @ '' ('' @ a @ '')''"
      then obtain a where a: "a \<in> set (map snd m)"
        and "alias_callback m ?x = ?x @ '' ('' @ a @ '')''" by blast
      then have "replace_ids (alias_callback m) (c # s) = (?x @ '' '') @ (''('' @ a @ '')'') @ ?rest"
        using res by simp
      then have "str_includes (replace_ids (alias_callback m) (c # s)) (''('' @ a @ '')'')"
        using str_includes_iff by blast
      with a show ?thesis by blast
    qed
  qed
    with Cons show ?thesis by simp
  qed
qed

text \<open>
  Claim C2. Rewriting is idempotent: for every text and every mapping, rewriting the result of
  \<open>applyAliasesToText\<close> once more returns that result, whatever the state of the pattern at
  the two calls. A first call that inserted a label leaves that label in parentheses in the
  text, and the guard of the second call finds it.
\<close>

theorem rewriteText_idempotent:
  "fst (applyAliasesToText (fst (applyAliasesToText t m li)) m li') =
   fst (applyAliasesToText t m li)"
proof (cases "str_includes t ''('' \<and> str_includes t '')'' \<and> hasAlreadyProcessed m t")
  case True
  then show ?thesis by (simp add: applyAliasesToText_def)
next
  case False
  let ?r = "replace_ids (alias_callback m) t"
  from False have first: "fst (applyAliasesToText t m li) = ?r"
    by (auto simp: applyAliasesToText_def)
  show ?thesis
  proof (cases "?r = t")
    case True
    moreover from False have "fst (applyAliasesToText t m li') = ?r"
      by (auto simp: applyAliasesToText_def)
    ultimately show ?thesis using first by simp
  next
    case changed: False
    then obtain a where a: "a \<in> set (map snd m)" and inc: "str_includes ?r (''('' @ a @ '')'')"
      using replace_ids_changed by blast
    then have "hasAlreadyProcessed m ?r"
      unfolding hasAlreadyProcessed_def list_ex_iff by blast
    moreover have "str_includes ?r ''('' \<and> str_includes ?r '')''"
      using inc by (rule includes_parens)
    ultimately have "fst (applyAliasesToText ?r m li') = ?r"
      by (simp add: applyAliasesToText_def)
    with first show ?thesis by simp
  qed
qed

subsection \<open>Identifiers inside longer digit runs\<close>








section \<open>The state of the shared pattern\<close>

text \<open>
  Claim C7, evaluated on the code. The detector is not restartable: on the text
  \<open>123456789012\<close> the first test, begun at \<^verbatim>\<open>lastIndex\<close> 0, answers true and leaves
  \<^verbatim>\<open>lastIndex\<close> at 12; the second test of the same text begins there, answers false and
  puts \<^verbatim>\<open>lastIndex\<close> back to 0.
\<close>

theorem detector_not_restartable:
  "ACCOUNT_ID_PATTERN_test ''123456789012'' 0 = (True, 12) \<and>
   ACCOUNT_ID_PATTERN_test ''123456789012'' 12 = (False, 0) \<and>
   test_twice ''123456789012'' 0 = (True, False)"
  by code_simp

text \<open>
  What this does to a pass: the test of the element's text leaves \<^verbatim>\<open>lastIndex\<close> at the end
  of the identifier, the walker's test of the text node starts there and rejects the node,
  and the element is marked with its text as it was.
\<close>

lemma page_pass_skips_text:
  "pass_element html [] (Element ''div'' [] [TextNode ''Account: 1234-5678-9012''])
     [(''123456789012'', ''Prod'')] 0 =
   Inr (Element ''div'' [(''data-alias-applied'', ''true'')]
          [TextNode ''Account: 1234-5678-9012''], 0)"
  by code_simp

section \<open>Annotating an element\<close>

lemma map_of_setAttr: "map_of (setAttr attrs name v) name = Some v"
  by (induction attrs name v rule: setAttr.induct) auto

lemma aliasApplied_set: "aliasApplied (set_aliasApplied (Element tag attrs cs))"
  by (simp add: aliasApplied_def map_of_setAttr)

lemma arn_text_excluded:
  "str_includes (textContent e) ''arn:aws:'' \<or> str_includes (textContent e) ''arn:aws-cn:''
   \<Longrightarrow> isExcludedElement ancestors e"
  unfolding isExcludedElement_def by (simp only: if_True split: if_splits) blast

text \<open>
  Claim C3. An element that \<open>isExcludedElement\<close> classifies as excluded is returned by
  \<open>applyAliasToElement\<close> as it is, with all of its subtree, for every mapping; and every
  element whose text content contains \<^verbatim>\<open>arn:aws:\<close> or \<^verbatim>\<open>arn:aws-cn:\<close> is so classified.
\<close>

theorem excluded_untouched:
  "(isExcludedElement ancestors (Element tag attrs cs) \<longrightarrow>
      applyAliasToElement html ancestors (Element tag attrs cs) aliasMap lastIndex =
        Inr (Element tag attrs cs, lastIndex)) \<and>
   (str_includes (textContent (Element tag attrs cs)) ''arn:aws:'' \<or>
    str_includes (textContent (Element tag attrs cs)) ''arn:aws-cn:'' \<longrightarrow>
      isExcludedElement ancestors (Element tag attrs cs))"
proof (intro conjI impI)
  assume "isExcludedElement ancestors (Element tag attrs cs)"
  then show "applyAliasToElement html ancestors (Element tag attrs cs) aliasMap lastIndex =
      Inr (Element tag attrs cs, lastIndex)"
    by simp
next
  assume "str_includes (textContent (Element tag attrs cs)) ''arn:aws:'' \<or>
          str_includes (textContent (Element tag attrs cs)) ''arn:aws-cn:''"
  then show "isExcludedElement ancestors (Element tag attrs cs)"
    by (rule arn_text_excluded)
qed

theorem excluded_untouched_witness:
  "isExcludedElement [] (Element ''div'' [] [TextNode ''arn:aws:iam::123456789012:role/x'']) \<and>
   str_includes (textContent (Element ''div'' [] [TextNode ''arn:aws:iam::123456789012:role/x'']))
     ''arn:aws:'' \<and>
   applyAliasToElement (\<lambda>markup. []) []
     (Element ''div'' [] [TextNode ''arn:aws:iam::123456789012:role/x''])
     [(''123456789012'', ''Prod'')] 0 =
   Inr (Element ''div'' [] [TextNode ''arn:aws:iam::123456789012:role/x''], 0)"
proof -
  have inc: "str_includes
      (textContent (Element ''div'' [] [TextNode ''arn:aws:iam::123456789012:role/x'']))
      ''arn:aws:''"
    by code_simp
  note inst = excluded_untouched [of "[]" "''div''" "[]"
      "[TextNode ''arn:aws:iam::123456789012:role/x'']" "\<lambda>markup. []"
      "[(''123456789012'', ''Prod'')]" 0]
  from inst inc have ex: "isExcludedElement []
      (Element ''div'' [] [TextNode ''arn:aws:iam::123456789012:role/x''])"
    by blast
  with inst inc show ?thesis by blast
qed

text \<open>
  Claim C5. An element whose mark is set is returned by \<open>applyAliasToElement\<close> as it is,
  for every mapping; and whatever a call returns, a further call on the returned element, with
  any mapping, changes nothing: the text below an element is rewritten at most once while the
  mark stays.
\<close>

theorem marked_untouched:
  "(aliasApplied (Element tag attrs cs) \<longrightarrow>
      applyAliasToElement html ancestors (Element tag attrs cs) aliasMap lastIndex =
        Inr (Element tag attrs cs, lastIndex)) \<and>
   (applyAliasToElement html ancestors (Element tag attrs cs) aliasMap lastIndex =
      Inr (element', lastIndex') \<longrightarrow>
      applyAliasToElement html2 ancestors element' aliasMap2 lastIndex' =
        Inr (element', lastIndex'))"
proof (intro conjI impI)
  assume "aliasApplied (Element tag attrs cs)"
  then show "applyAliasToElement html ancestors (Element tag attrs cs) aliasMap lastIndex =
      Inr (Element tag attrs cs, lastIndex)"
    by simp
next
  let ?e = "Element tag attrs cs"
  assume first: "applyAliasToElement html ancestors ?e aliasMap lastIndex =
      Inr (element', lastIndex')"
  have "element' = ?e \<and> (isExcludedElement ancestors ?e \<or> aliasApplied ?e) \<or>
        (\<exists>cs'. element' = set_aliasApplied (Element tag attrs cs'))"
    using first by (auto split: if_splits prod.splits)
  then consider "element' = ?e" "isExcludedElement ancestors ?e \<or> aliasApplied ?e"
    | cs' where "element' = set_aliasApplied (Element tag attrs cs')"
    by blast
  then show "applyAliasToElement html2 ancestors element' aliasMap2 lastIndex' =
      Inr (element', lastIndex')"
  proof cases
    case 1
    then show ?thesis by auto
  next
    case 2
    then have "aliasApplied element'" by (simp only: aliasApplied_set)
    moreover obtain attrs' where "element' = Element tag attrs' cs'"
      using 2 by simp
    ultimately show ?thesis by simp
  qed
qed

theorem marked_untouched_witness:
  "aliasApplied (Element ''div'' [(''data-alias-applied'', ''true'')]
                   [TextNode ''Account: 1234-5678-9012'']) \<and>
   applyAliasToElement (\<lambda>markup. []) []
     (Element ''div'' [(''data-alias-applied'', ''true'')] [TextNode ''Account: 1234-5678-9012''])
     [(''123456789012'', ''Prod'')] 0 =
   Inr (Element ''div'' [(''data-alias-applied'', ''true'')]
          [TextNode ''Account: 1234-5678-9012''], 0) \<and>
   applyAliasToElement (\<lambda>markup. []) []
     (Element ''div'' [(''data-alias-applied'', ''true'')] [TextNode ''Account: 1234-5678-9012''])
     [(''123456789012'', ''Test'')] 0 =
   Inr (Element ''div'' [(''data-alias-applied'', ''true'')]
          [TextNode ''Account: 1234-5678-9012''], 0)"
proof -
  let ?e = "Element ''div'' [(''data-alias-applied'', ''true'')]
              [TextNode ''Account: 1234-5678-9012'']"
  have m: "aliasApplied ?e"
    by code_simp
  note inst = marked_untouched [of "''div''" "[(''data-alias-applied'', ''true'')]"
      "[TextNode ''Account: 1234-5678-9012'']" "\<lambda>markup. []" "[]"
      "[(''123456789012'', ''Prod'')]" 0 ?e 0 "\<lambda>markup. []" "[(''123456789012'', ''Test'')]"]
  from inst m have a: "applyAliasToElement (\<lambda>markup. []) [] ?e [(''123456789012'', ''Prod'')] 0 =
      Inr (?e, 0)"
    by blast
  with inst have "applyAliasToElement (\<lambda>markup. []) [] ?e [(''123456789012'', ''Test'')] 0 =
      Inr (?e, 0)"
    by blast
  with m a show ?thesis by blast
qed

text \<open>
  Called with the pattern in its initial state, the element whose only text is
  \<open>Account: 1234-5678-9012\<close> gets the label: the identifier keeps its hyphens, the label in
  parentheses follows it in a span of class \<^verbatim>\<open>aws-custom-alias\<close>, and the element is marked.
\<close>

lemma end_to_end_initial_state:
  "applyAliasToElement html [] (Element ''div'' [] [TextNode ''Account: 1234-5678-9012''])
     [(''123456789012'', ''Prod'')] 0 =
   Inr (Element ''div'' [(''data-alias-applied'', ''true'')]
          [TextNode ''Account: 1234-5678-9012 '',
           Element ''span'' [(''class'', ''aws-custom-alias'')] [TextNode ''(Prod)'']], 0) \<and>
   textContent (Element ''div'' [(''data-alias-applied'', ''true'')]
          [TextNode ''Account: 1234-5678-9012 '',
           Element ''span'' [(''class'', ''aws-custom-alias'')] [TextNode ''(Prod)'']]) =
     ''Account: 1234-5678-9012 (Prod)'' \<and>
   has_class (Element ''span'' [(''class'', ''aws-custom-alias'')] [TextNode ''(Prod)''])
     ''aws-custom-alias'' \<and>
   aliasApplied (Element ''div'' [(''data-alias-applied'', ''true'')]
          [TextNode ''Account: 1234-5678-9012 '',
           Element ''span'' [(''class'', ''aws-custom-alias'')] [TextNode ''(Prod)'']])"
  by code_simp

text \<open>
  Claim C4, evaluated on the code. The passes test the element's text with the shared pattern
  before they call \<open>applyAliasToElement\<close>, which leaves \<^verbatim>\<open>lastIndex\<close> at 23, the end of the
  identifier. Called in that state, with the mapping of \<open>123456789012\<close> to \<open>Prod\<close>, the
  walker's test of the text node finds nothing: the element is marked, its text is still
  \<open>Account: 1234-5678-9012\<close> and no span is inserted.
\<close>

theorem end_to_end_after_test:
  "ACCOUNT_ID_PATTERN_test
     (textContent (Element ''div'' [] [TextNode ''Account: 1234-5678-9012''])) 0 = (True, 23) \<and>
   applyAliasToElement html [] (Element ''div'' [] [TextNode ''Account: 1234-5678-9012''])
     [(''123456789012'', ''Prod'')] 23 =
   Inr (Element ''div'' [(''data-alias-applied'', ''true'')]
          [TextNode ''Account: 1234-5678-9012''], 0) \<and>
   textContent (Element ''div'' [(''data-alias-applied'', ''true'')]
          [TextNode ''Account: 1234-5678-9012'']) \<noteq> ''Account: 1234-5678-9012 (Prod)'' \<and>
   \<not> querySelector_alias (Element ''div'' [(''data-alias-applied'', ''true'')]
          [TextNode ''Account: 1234-5678-9012''])"
  by code_simp

section \<open>Clearing after annotating\<close>

text \<open>
  Claim C1, evaluated on the code. Clearing does not restore the text: the span is removed,
  but the blank that the annotation wrote in front of it is in the text node before the span,
  which does not end in a parenthesized group, so the pattern of the clearing strips nothing.
  The text \<open>Account: 1234-5678-9012\<close> comes back with a blank at its end.
\<close>

theorem clear_leaves_blank:
  "annotate_then_clear html [] (Element ''div'' [] [TextNode ''Account: 1234-5678-9012''])
     [(''123456789012'', ''Prod'')] 0 =
   Inr (Element ''div'' [(''data-alias-applied'', ''true'')]
          [TextNode ''Account: 1234-5678-9012 '']) \<and>
   textContent (Element ''div'' [(''data-alias-applied'', ''true'')]
          [TextNode ''Account: 1234-5678-9012 '']) \<noteq>
   textContent (Element ''div'' [] [TextNode ''Account: 1234-5678-9012''])"
  by code_simp

section \<open>Import and export of the store\<close>

lemma validate_None: "validate es = None \<Longrightarrow> \<forall>(k, v) \<in> set es. is_canonical k \<and> valid_alias v"
  by (induction es rule: validate.induct) (auto split: if_splits)

lemma validate_Some:
  "\<exists>(k, v) \<in> set es. \<not> is_canonical k \<or> \<not> valid_alias v \<Longrightarrow> validate es \<noteq> None"
  using validate_None by fastforce

lemma handleImportAliases_failure:
  "fst (handleImportAliases data st) = Inl e \<Longrightarrow> snd (handleImportAliases data st) = st"
  by (auto simp: handleImportAliases_def split: if_splits serialized.splits sum.splits option.splits)

lemma handleImportAliases_success:
  assumes "fst (handleImportAliases data st) = Inr aliases"
  shows "snd (handleImportAliases data st) = Some aliases \<and>
         (\<forall>(k, v) \<in> set (entries aliases). is_canonical k \<and> valid_alias v)"
proof -
  from assms have "validate (entries aliases) = None"
    by (auto simp: handleImportAliases_def split: if_splits serialized.splits sum.splits option.splits)
  moreover from assms have "snd (handleImportAliases data st) = Some aliases"
    by (auto simp: handleImportAliases_def split: if_splits serialized.splits sum.splits option.splits)
  ultimately show ?thesis using validate_None by blast
qed

lemma handleImportAliases_both_shapes:
  assumes "validate kvs = None" and "map_of kvs ''aliases'' = None"
  shows "handleImportAliases (Doc (JObject kvs)) st = (Inr (JObject kvs), Some (JObject kvs))"
    and "handleImportAliases
           (Doc (JObject [(''version'', v), (''exportedAt'', t), (''aliases'', JObject kvs)])) st =
         (Inr (JObject kvs), Some (JObject kvs))"
  using assms by (simp_all add: handleImportAliases_def select_aliases_def legacy_aliases_def)

lemma handleImportAliases_same_inputs:
  "handleImportAliases (Doc (JObject [(''123456789012'', JString [])])) st =
     (Inl (Error ''Invalid alias for account 123456789012''), st) \<and>
   handleImportAliases (Doc (JObject [(''123456789012'', JNumber 5)])) st =
     (Inl (Error ''Invalid alias for account 123456789012''), st) \<and>
   handleImportAliases
     (Doc (JObject [(''version'', JString ''1.0.0''), (''exportedAt'', JString now),
                    (''aliases'', JObject [(''123456789012'', JString ''Prod'')])])) st =
     (Inr (JObject [(''123456789012'', JString ''Prod'')]),
      Some (JObject [(''123456789012'', JString ''Prod'')]))"
  by code_simp

text \<open>
  Claim C8, evaluated on the code. \<^verbatim>\<open>StorageManager.importAliases\<close> checks the keys only: a
  mapping whose label is the empty string, or a number, is stored; and a document of the
  export shape is refused, its member \<^verbatim>\<open>version\<close> being taken for an identifier.
\<close>

theorem storage_import_unvalidated:
  "importAliases (Doc (JObject [(''123456789012'', JString [])])) st =
     (None, Some (JObject [(''123456789012'', JString [])])) \<and>
   importAliases (Doc (JObject [(''123456789012'', JNumber 5)])) st =
     (None, Some (JObject [(''123456789012'', JNumber 5)])) \<and>
   importAliases
     (Doc (JObject [(''version'', JString ''1.0.0''), (''exportedAt'', JString now),
                    (''aliases'', JObject [(''123456789012'', JString ''Prod'')])])) st =
     (Some (ImportFailed (Error ''Invalid account ID: version'')), st)"
  by code_simp

lemma handleExportAliases_shape:
  "\<exists>text. handleExportAliases now st = Inr text \<and> spec_export_shape (getAllAliases st) text"
  by (simp add: handleExportAliases_def)

text \<open>
  Claim C9, evaluated on the code. \<^verbatim>\<open>StorageManager.exportAliases\<close> serializes the mapping
  itself: the document has no members \<^verbatim>\<open>version\<close>, \<^verbatim>\<open>exportedAt\<close> and \<^verbatim>\<open>aliases\<close>.
\<close>

theorem storage_export_bare:
  "exportAliases (Some (JObject [(''123456789012'', JString ''Prod'')])) =
     Doc (JObject [(''123456789012'', JString ''Prod'')]) \<and>
   \<not> spec_export_shape (JObject [(''123456789012'', JString ''Prod'')])
       (exportAliases (Some (JObject [(''123456789012'', JString ''Prod'')])))"
  by code_simp

end
